theory Spec2Isabelle
  imports Complex_Main "HOL-Library.Sublist" "HOL-Library.AList"
begin

section \<open>Python values, errors and strings\<close>

text \<open>
  The module \<^verbatim>\<open>ingestion_server/cleanup.py\<close> works on rows fetched with a
  \<^verbatim>\<open>DictCursor\<close>: every column value is a Python value (\<^verbatim>\<open>None\<close> for SQL NULL,
  a \<^verbatim>\<open>str\<close> for a text column, the decoded JSON for a \<^verbatim>\<open>jsonb\<close> column). A number is
  a rational: every \<^verbatim>\<open>int\<close> and every finite \<^verbatim>\<open>float\<close> is one, and the only operation
  the module applies to a number is an order comparison, which is exact. A \<^verbatim>\<open>dict\<close> keeps
  its insertion order, so it is an association list with distinct keys, read with
  \<^const>\<open>map_of\<close>.
\<close>

datatype pyval =
    PNone
  | PBool bool
  | PNum rat
  | PStr string
  | PList "pyval list"
  | PDict "(string \<times> pyval) list"

text \<open>
  The exceptions that the module's own expressions raise, and \<^verbatim>\<open>LocationParseError\<close> of
  \<^verbatim>\<open>urllib3\<close>, which a GET can raise.
\<close>

datatype py_error =
  KeyError | TypeError | AttributeError | ValueError | ZeroDivisionError | LocationParseError

text \<open>Python's truth value of an object, as \<^verbatim>\<open>not x\<close> and \<^verbatim>\<open>if x\<close> read it.\<close>

fun truthy :: "pyval \<Rightarrow> bool" where
  "truthy PNone = False"
| "truthy (PBool b) = b"
| "truthy (PNum r) = (r \<noteq> 0)"
| "truthy (PStr s) = (s \<noteq> [])"
| "truthy (PList xs) = (xs \<noteq> [])"
| "truthy (PDict kvs) = (kvs \<noteq> [])"

text \<open>
  \<^verbatim>\<open>str.lower\<close> on the ASCII letters; a character outside \<^verbatim>\<open>A..Z\<close> is kept. (A
  \<^typ>\<open>char\<close> is a byte: the code points beyond ASCII, which Python also folds, are not
  characters of this model.)
\<close>

definition lower_char :: "char \<Rightarrow> char" where
  "lower_char c =
     (case map_of (zip ''ABCDEFGHIJKLMNOPQRSTUVWXYZ'' ''abcdefghijklmnopqrstuvwxyz'') c of
        Some d \<Rightarrow> d
      | None \<Rightarrow> c)"

definition lower :: "string \<Rightarrow> string" where
  "lower s = map lower_char s"

text \<open>\<^verbatim>\<open>s.startswith(p)\<close>, and the substring test \<^verbatim>\<open>p in s\<close>.\<close>

fun startswith :: "string \<Rightarrow> string \<Rightarrow> bool" where
  "startswith s [] = True"
| "startswith [] (p # ps) = False"
| "startswith (c # cs) (p # ps) = (c = p \<and> startswith cs ps)"

fun str_in :: "string \<Rightarrow> string \<Rightarrow> bool" where
  "str_in p [] = (p = [])"
| "str_in p (c # cs) = (startswith (c # cs) p \<or> str_in p cs)"

text \<open>
  \<^verbatim>\<open>s.replace(old, new)\<close>: every occurrence of \<^verbatim>\<open>old\<close>, found from the left and not
  overlapping, becomes \<^verbatim>\<open>new\<close>. With an empty \<^verbatim>\<open>old\<close> Python puts \<^verbatim>\<open>new\<close> before
  every character and at the end.
\<close>

function str_replace :: "string \<Rightarrow> string \<Rightarrow> string \<Rightarrow> string" where
  "str_replace old new s =
     (if old = [] then new @ concat (map (\<lambda>c. c # new) s)
      else if s = [] then []
      else if startswith s old then new @ str_replace old new (drop (length old) s)
      else hd s # str_replace old new (tl s))"
  by pat_completeness auto
termination
  by (relation "measure (\<lambda>(old, new, s). length s)") auto

text \<open>
  A slice \<^verbatim>\<open>xs[i:j]\<close>: a negative index counts from the end, an index out of range is
  clamped, and a slice whose start is not before its end is empty.
\<close>

definition py_slice :: "'a list \<Rightarrow> int \<Rightarrow> int \<Rightarrow> 'a list" where
  "py_slice xs i j =
     (let n = int (length xs);
          lo = (if i < 0 then max 0 (i + n) else min i n);
          hi = (if j < 0 then max 0 (j + n) else min j n)
      in take (nat (hi - lo)) (drop (nat lo) xs))"

text \<open>
  Assignment \<^verbatim>\<open>d[k] = v\<close> on a dict is \<^const>\<open>AList.update\<close>: the value of an
  existing key is replaced in place, a new key goes last. \<^verbatim>\<open>{**g, **p}\<close> builds a new
  dict by inserting the items of \<^verbatim>\<open>g\<close> and then those of \<^verbatim>\<open>p\<close>.
\<close>

definition dict_merge :: "('k \<times> 'v) list \<Rightarrow> ('k \<times> 'v) list \<Rightarrow> ('k \<times> 'v) list" where
  "dict_merge g p = fold (\<lambda>(k, v). AList.update k v) (g @ p) []"


section \<open>Tag cleanup\<close>

definition TAG_BLACKLIST :: "string list" where
  "TAG_BLACKLIST =
     [''no person'', ''squareformat'', ''uploaded:by=flickrmobile'',
      ''uploaded:by=instagram'', ''flickriosapp:filter=flamingo'', ''cc0'', ''by'',
      ''by-nc'', ''by-nd'', ''by-sa'', ''by-nc-nd'', ''by-nc-sa'', ''pdm'']"

text \<open>
  \<^verbatim>\<open>TAG_MIN_CONFIDENCE = 0.90\<close>. The float nearest to \<^verbatim>\<open>0.90\<close> lies above nine tenths
  by less than half a unit in the last place, so no float lies between the two, and a float
  or an int is below the one exactly when it is below the other.
\<close>

definition TAG_MIN_CONFIDENCE :: rat where
  "TAG_MIN_CONFIDENCE = 9 / 10"

text \<open>
  What a cleanup function returns when an update is required: \<^verbatim>\<open>cleanup_url\<close> returns the
  text of a quoted SQL literal, \<^verbatim>\<open>cleanup_tags\<close> returns \<^verbatim>\<open>Json(tag_output)\<close>, the
  adapter object around the list of retained tags. \<^verbatim>\<open>None\<close> is \<^const>\<open>None\<close>.
\<close>

datatype cleaned = SqlLiteral string | Json "pyval list"

text \<open>\<^verbatim>\<open>x < t\<close> for a float \<^verbatim>\<open>t\<close>: numbers compare (a bool is 0 or 1), anything else
  raises \<^verbatim>\<open>TypeError\<close>.\<close>

fun py_less :: "pyval \<Rightarrow> rat \<Rightarrow> py_error + bool" where
  "py_less (PNum r) t = Inr (r < t)"
| "py_less (PBool b) t = Inr ((if b then 1 else 0) < t)"
| "py_less v t = Inl TypeError"

text \<open>
  The body of the loop of \<^verbatim>\<open>cleanup_tags\<close> up to \<^verbatim>\<open>should_filter\<close>, for one tag. The
  accuracy is read first, and compared only when the key is there; then
  \<^verbatim>\<open>tag['name'].lower()\<close> is evaluated whatever the accuracy was: a tag without a name
  raises \<^verbatim>\<open>KeyError\<close>, a name that is not a string has no \<^verbatim>\<open>lower\<close>. A tag that is
  not a dict cannot be indexed by \<^verbatim>\<open>'name'\<close>, or cannot be searched at all.
\<close>

fun should_filter :: "pyval \<Rightarrow> py_error + bool" where
  "should_filter (PDict tag) =
     (case (case map_of tag ''accuracy'' of
              None \<Rightarrow> Inr False
            | Some a \<Rightarrow> py_less a TAG_MIN_CONFIDENCE) of
        Inl e \<Rightarrow> Inl e
      | Inr below_threshold \<Rightarrow>
          (case map_of tag ''name'' of
             None \<Rightarrow> Inl KeyError
           | Some (PStr name) \<Rightarrow> Inr (lower name \<in> set TAG_BLACKLIST \<or> below_threshold)
           | Some _ \<Rightarrow> Inl AttributeError))"
| "should_filter tag = Inl TypeError"

text \<open>The loop, with its two variables \<^verbatim>\<open>tag_output\<close> and \<^verbatim>\<open>update_required\<close>.\<close>

fun tags_loop :: "pyval list \<Rightarrow> pyval list \<Rightarrow> bool \<Rightarrow> py_error + pyval list \<times> bool" where
  "tags_loop [] tag_output update_required = Inr (tag_output, update_required)"
| "tags_loop (tag # tags) tag_output update_required =
     (case should_filter tag of
        Inl e \<Rightarrow> Inl e
      | Inr filtered \<Rightarrow>
          if \<not> filtered then tags_loop tags (tag_output @ [tag]) True
          else tags_loop tags tag_output update_required)"

text \<open>
  \<^verbatim>\<open>cleanup_tags(tags)\<close>. A falsy argument returns \<^verbatim>\<open>None\<close> at once. Iterating over a
  truthy value that is not a list raises \<^verbatim>\<open>TypeError\<close>, in the \<^verbatim>\<open>for\<close> itself (a
  number, \<^verbatim>\<open>True\<close>) or at the first element (a character of a string, a key of a dict).
\<close>

definition cleanup_tags :: "pyval \<Rightarrow> py_error + cleaned option" where
  "cleanup_tags tags =
     (if \<not> truthy tags then Inr None
      else case tags of
        PList ts \<Rightarrow>
          (case tags_loop ts [] False of
             Inl e \<Rightarrow> Inl e
           | Inr (tag_output, update_required) \<Rightarrow>
               if update_required then Inr (Some (Json tag_output)) else Inr None)
      | _ \<Rightarrow> Inl TypeError)"

text \<open>
  The filter criterion in the words of the specification: the lower-cased name is in the
  blacklist, or the accuracy is present and below the threshold.
\<close>

definition tag_name :: "pyval \<Rightarrow> string option" where
  "tag_name t = (case t of PDict d \<Rightarrow> (case map_of d ''name'' of Some (PStr n) \<Rightarrow> Some n | _ \<Rightarrow> None) | _ \<Rightarrow> None)"

definition tag_accuracy :: "pyval \<Rightarrow> rat option" where
  "tag_accuracy t =
     (case t of
        PDict d \<Rightarrow>
          (case map_of d ''accuracy'' of
             Some (PNum r) \<Rightarrow> Some r
           | Some (PBool b) \<Rightarrow> Some (if b then 1 else 0)
           | _ \<Rightarrow> None)
      | _ \<Rightarrow> None)"

definition blacklisted_or_inaccurate :: "pyval \<Rightarrow> bool" where
  "blacklisted_or_inaccurate t =
     ((case tag_name t of Some n \<Rightarrow> lower n \<in> set TAG_BLACKLIST | None \<Rightarrow> False) \<or>
      (case tag_accuracy t of Some a \<Rightarrow> a < 9 / 10 | None \<Rightarrow> False))"


section \<open>Dividing a batch into jobs\<close>

text \<open>
  \<^verbatim>\<open>int(len(batch) / num_workers)\<close>: true division, then truncation towards zero; a zero
  divisor raises. (The quotient of two ints goes through a float; for the lengths a batch can
  have, below \<^verbatim>\<open>2 ** 53\<close>, the truncated float is the truncated quotient.)
\<close>

definition job_size_of :: "nat \<Rightarrow> int \<Rightarrow> py_error + int" where
  "job_size_of len num_workers =
     (if num_workers = 0 then Inl ZeroDivisionError
      else if 0 < num_workers then Inr (int len div num_workers)
      else Inr (- (int len div (- num_workers))))"

text \<open>
  The \<^verbatim>\<open>for n in range(1, num_workers + 1)\<close> loop of \<^verbatim>\<open>clean_image_data\<close>, with its
  variable \<^verbatim>\<open>last_end\<close>; the result is the list \<^verbatim>\<open>jobs\<close>, of which only the slice of the
  batch is kept (the other three components of a job are the same for every job).
\<close>

fun schedule_jobs :: "'a list \<Rightarrow> int \<Rightarrow> int list \<Rightarrow> int \<Rightarrow> 'a list list" where
  "schedule_jobs batch job_size [] last_end = []"
| "schedule_jobs batch job_size (n # ns) last_end =
     (let start = last_end + 1;
          end = job_size * n
      in py_slice batch start end # schedule_jobs batch job_size ns end)"

definition divide_work :: "'a list \<Rightarrow> int \<Rightarrow> py_error + 'a list list" where
  "divide_work batch num_workers =
     (case job_size_of (length batch) num_workers of
        Inl e \<Rightarrow> Inl e
      | Inr job_size \<Rightarrow> Inr (schedule_jobs batch job_size [1..num_workers] (- 1)))"


section \<open>The TLS probe\<close>

text \<open>
  \<^verbatim>\<open>requests.get(url, timeout=t)\<close> is the module's one call to the network. A request is
  the URL with the timeout in seconds. The call returns a response, of which the module reads
  the status code only, or raises. The exceptions of the library itself derive from
  \<^verbatim>\<open>RequestException\<close> (connection errors, timeouts, invalid URLs, a missing schema);
  an exception of another class comes through the library unchanged, as
  \<^verbatim>\<open>LocationParseError\<close> does for a host with an empty label. The network is a
  parameter: it answers a request knowing the requests made before it, so the same URL may
  be answered differently at different times.
\<close>

type_synonym request = "string \<times> nat"

datatype http_outcome = Response int | RequestException | OtherException py_error

type_synonym network = "request list \<Rightarrow> request \<Rightarrow> http_outcome"

text \<open>
  The \<^verbatim>\<open>try\<close> block of \<^verbatim>\<open>test_tls_supported\<close>: one GET with a timeout of 2 seconds.
  The handler catches \<^verbatim>\<open>RequestException\<close> and nothing else, so any other exception
  leaves the function. The result comes with the list of requests made, one longer.
\<close>

definition https_probe ::
    "network \<Rightarrow> string \<Rightarrow> request list \<Rightarrow> (py_error + bool) \<times> request list" where
  "https_probe net https reqs =
     (case net reqs (https, 2) of
        Response status_code \<Rightarrow>
          (Inr (200 \<le> status_code \<and> status_code < 400), reqs @ [(https, 2)])
      | RequestException \<Rightarrow> (Inr False, reqs @ [(https, 2)])
      | OtherException e \<Rightarrow> (Inl e, reqs @ [(https, 2)]))"

text \<open>The condition of the first branch: \<^verbatim>\<open>'https://' not in url and 'http://' not in url\<close>.\<close>

definition no_protocol :: "string \<Rightarrow> bool" where
  "no_protocol url = (\<not> str_in ''https://'' url \<and> \<not> str_in ''http://'' url)"

text \<open>\<^verbatim>\<open>TlsTest.test_tls_supported(url)\<close> for a string.\<close>

function test_tls_supported ::
    "network \<Rightarrow> string \<Rightarrow> request list \<Rightarrow> (py_error + bool) \<times> request list" where
  "test_tls_supported net url reqs =
     (if no_protocol url then
        (let fixed_url = ''http://'' @ url in test_tls_supported net fixed_url reqs)
      else if str_in ''http://'' url then
        (let https = str_replace ''http://'' ''https://'' url in https_probe net https reqs)
      else (Inr True, reqs))"
  by pat_completeness auto
termination
  by (relation "measure (\<lambda>(net, url, reqs). if no_protocol url then 1 else 0)")
    (auto simp: no_protocol_def)

text \<open>
  The number of recursive calls that \<^verbatim>\<open>test_tls_supported(url)\<close> makes: the same test, the
  same argument of the recursive call.
\<close>

function recursive_calls :: "string \<Rightarrow> nat" where
  "recursive_calls url =
     (if no_protocol url then Suc (recursive_calls (''http://'' @ url)) else 0)"
  by pat_completeness auto
termination
  by (relation "measure (\<lambda>url. if no_protocol url then 1 else 0)")
    (auto simp: no_protocol_def)

text \<open>
  The same call on a value that is not a string, as the sampling loop can make it on a
  column value. On \<^verbatim>\<open>None\<close>, a bool or a number the first \<^verbatim>\<open>in\<close> raises
  \<^verbatim>\<open>TypeError\<close>. On a list \<^verbatim>\<open>in\<close> is membership of an element, on a dict of a key:
  with neither marker in it the concatenation \<^verbatim>\<open>'http://' + url\<close> raises
  \<^verbatim>\<open>TypeError\<close>; with \<^verbatim>\<open>'http://'\<close> in it \<^verbatim>\<open>url.replace\<close> raises
  \<^verbatim>\<open>AttributeError\<close>; with \<^verbatim>\<open>'https://'\<close> alone in it the result is \<^verbatim>\<open>True\<close>.
\<close>

definition test_tls_supported_container :: "bool \<Rightarrow> bool \<Rightarrow> py_error + bool" where
  "test_tls_supported_container has_https has_http =
     (if \<not> has_https \<and> \<not> has_http then Inl TypeError
      else if has_http then Inl AttributeError
      else Inr True)"

definition test_tls_supported_value ::
    "network \<Rightarrow> pyval \<Rightarrow> request list \<Rightarrow> (py_error + bool) \<times> request list" where
  "test_tls_supported_value net v reqs =
     (case v of
        PStr url \<Rightarrow> test_tls_supported net url reqs
      | PList xs \<Rightarrow>
          (test_tls_supported_container (PStr ''https://'' \<in> set xs) (PStr ''http://'' \<in> set xs),
           reqs)
      | PDict kvs \<Rightarrow>
          (test_tls_supported_container (map_of kvs ''https://'' \<noteq> None)
             (map_of kvs ''http://'' \<noteq> None), reqs)
      | _ \<Rightarrow> (Inl TypeError, reqs))"

text \<open>
  The inner loop of \<^verbatim>\<open>test_provider_tls_images_available\<close> over \<^verbatim>\<open>img_list\<close>, with
  its two counters, and the decision that follows it.
\<close>

fun tally :: "network \<Rightarrow> pyval list \<Rightarrow> nat \<Rightarrow> nat \<Rightarrow> request list \<Rightarrow>
    (py_error + nat \<times> nat) \<times> request list" where
  "tally net [] http_score https_score reqs = (Inr (http_score, https_score), reqs)"
| "tally net (thumb # img_list) http_score https_score reqs =
     (case test_tls_supported_value net thumb reqs of
        (Inl e, reqs') \<Rightarrow> (Inl e, reqs')
      | (Inr tls_supported, reqs') \<Rightarrow>
          if tls_supported then tally net img_list http_score (https_score + 1) reqs'
          else tally net img_list (http_score + 1) https_score reqs')"

definition provider_decision :: "nat \<times> nat \<Rightarrow> bool" where
  "provider_decision scores = (case scores of (http_score, https_score) \<Rightarrow> https_score \<ge> http_score)"

text \<open>
  The outer loop over the providers of the catalog. The two queries are the database's
  answers: \<^verbatim>\<open>providers\<close> is the list of provider identifiers, and \<^verbatim>\<open>sample p\<close> the rows
  \<^verbatim>\<open>(thumbnail, url)\<close> of the sample query for \<^verbatim>\<open>p\<close> (at most ten, by its LIMIT). The
  element of \<^verbatim>\<open>img_list\<close> for a row is its thumbnail when that is truthy, else its url.
\<close>

definition img_list_of :: "(pyval \<times> pyval) list \<Rightarrow> pyval list" where
  "img_list_of rows = map (\<lambda>(thumbnail, url). if truthy thumbnail then thumbnail else url) rows"

fun provider_loop :: "network \<Rightarrow> (string \<Rightarrow> (pyval \<times> pyval) list) \<Rightarrow> string list \<Rightarrow>
    (string \<rightharpoonup> bool) \<Rightarrow> request list \<Rightarrow> (py_error + (string \<rightharpoonup> bool)) \<times> request list" where
  "provider_loop net sample [] provider_tls_supported reqs = (Inr provider_tls_supported, reqs)"
| "provider_loop net sample (p # providers) provider_tls_supported reqs =
     (case tally net (img_list_of (sample p)) 0 0 reqs of
        (Inl e, reqs') \<Rightarrow> (Inl e, reqs')
      | (Inr scores, reqs') \<Rightarrow>
          provider_loop net sample providers
            (provider_tls_supported(p \<mapsto> provider_decision scores)) reqs')"

definition test_provider_tls_images_available ::
    "network \<Rightarrow> string list \<Rightarrow> (string \<Rightarrow> (pyval \<times> pyval) list) \<Rightarrow> request list \<Rightarrow>
     (py_error + (string \<rightharpoonup> bool)) \<times> request list" where
  "test_provider_tls_images_available net providers sample reqs =
     provider_loop net sample providers Map.empty reqs"


section \<open>URL cleanup\<close>

text \<open>
  What a worker changes while it runs: its own copy of the mapping from a provider to its
  TLS decision (a dict read by key; the order of its keys is never used), the requests made
  so far, and the texts of the statements executed on the worker's connection.
\<close>

record world =
  tls_support :: "string \<rightharpoonup> bool"
  requests :: "request list"
  executed :: "string list"

text \<open>
  \<^verbatim>\<open>urlparse\<close> is the standard library's, and \<^verbatim>\<open>cleanup_url\<close> reads one thing of its
  result: the scheme. It is a parameter, \<^verbatim>\<open>urlparse_scheme\<close>: the scheme reported for
  a string, or the exception raised (\<^verbatim>\<open>urlparse\<close> raises \<^verbatim>\<open>ValueError\<close> on an
  unbalanced bracket in the host).

  The lookup \<^verbatim>\<open>tls_support[provider]\<close> raises \<^verbatim>\<open>KeyError\<close> for a provider that the
  mapping lacks; the handler probes the URL and stores the result. An exception that leaves
  the probe leaves \<^verbatim>\<open>cleanup_url\<close> before the mapping is assigned.
  \<^verbatim>\<open>"'https://{}'".format(url)\<close> is the URL after its scheme, between two single quotes;
  nothing in the URL is escaped.
\<close>

definition cleanup_url ::
    "(string \<Rightarrow> py_error + string) \<Rightarrow> network \<Rightarrow> string \<Rightarrow> string \<Rightarrow> world \<Rightarrow>
     (py_error + cleaned option) \<times> world" where
  "cleanup_url urlparse_scheme net url provider w =
     (case urlparse_scheme url of
        Inl e \<Rightarrow> (Inl e, w)
      | Inr scheme \<Rightarrow>
          if scheme = [] then
            (case (case tls_support w provider of
                     Some b \<Rightarrow> (Inr b, w)
                   | None \<Rightarrow>
                       (case test_tls_supported net url (requests w) of
                          (Inl e, reqs') \<Rightarrow> (Inl e, w\<lparr>requests := reqs'\<rparr>)
                        | (Inr b, reqs') \<Rightarrow>
                            (Inr b, w\<lparr>tls_support := (tls_support w)(provider \<mapsto> b),
                                      requests := reqs'\<rparr>))) of
               (Inl e, w') \<Rightarrow> (Inl e, w')
             | (Inr tls_supported, w') \<Rightarrow>
                 if tls_supported
                 then (Inr (Some (SqlLiteral ([CHR 0x27] @ ''https://'' @ url @ [CHR 0x27]))), w')
                 else (Inr (Some (SqlLiteral ([CHR 0x27] @ ''http://'' @ url @ [CHR 0x27]))), w'))
          else (Inr None, w))"

text \<open>
  An instance of the parameter, for the worked examples: the scheme as
  \<^verbatim>\<open>urllib.parse.urlsplit\<close> of CPython 3.7 finds it. The text before the first colon is
  the scheme when it is not empty, consists of scheme characters and is not followed by
  digits only (a port); \<^verbatim>\<open>http\<close> is always one. The host is what follows \<^verbatim>\<open>//\<close> up
  to the next \<^verbatim>\<open>/\<close>, \<^verbatim>\<open>?\<close> or \<^verbatim>\<open>#\<close>; one square bracket without the other in it
  raises \<^verbatim>\<open>ValueError\<close>.
\<close>

definition scheme_chars :: string where
  "scheme_chars = ''abcdefghijklmnopqrstuvwxyzABCDEFGHIJKLMNOPQRSTUVWXYZ0123456789+-.''"

definition urlsplit_scheme :: "string \<Rightarrow> py_error + string" where
  "urlsplit_scheme url =
     (let candidate = takeWhile (\<lambda>c. c \<noteq> CHR '':'') url;
          rest = drop (length candidate + 1) url;
          found = (CHR '':'' \<in> set url \<and> candidate \<noteq> [] \<and>
                   (candidate = ''http'' \<or>
                    (list_all (\<lambda>c. c \<in> set scheme_chars) candidate \<and>
                     (rest = [] \<or> list_ex (\<lambda>c. c \<notin> set ''0123456789'') rest))));
          scheme = (if found then lower candidate else []);
          url' = (if found then rest else url);
          netloc = (if startswith url' ''//''
                    then takeWhile (\<lambda>c. c \<notin> set ''/?#'') (drop 2 url') else [])
      in if (CHR ''['' \<in> set netloc) \<noteq> (CHR '']'' \<in> set netloc) then Inl ValueError
         else Inr scheme)"



section \<open>The worker\<close>

text \<open>
  The cleaning functions are the two static methods of \<^verbatim>\<open>CleanupFunctions\<close>; a rule table
  maps a field name to one of them. The worker tells them apart by identity
  (\<^verbatim>\<open>cleaning_func == CleanupFunctions.cleanup_url\<close>), because \<^verbatim>\<open>cleanup_url\<close> takes the
  mapping and the provider as well. \<^verbatim>\<open>urlparse\<close> of a truthy value that is not a string
  looks for its \<^verbatim>\<open>decode\<close> method and raises \<^verbatim>\<open>AttributeError\<close>.
\<close>

datatype cleaning_func = CleanupUrl | CleanupTags

definition call_cleaning_func ::
    "(string \<Rightarrow> py_error + string) \<Rightarrow> network \<Rightarrow> cleaning_func \<Rightarrow> pyval \<Rightarrow> string \<Rightarrow> world \<Rightarrow>
     (py_error + cleaned option) \<times> world" where
  "call_cleaning_func urlparse_scheme net cleaning_func dirty_value provider w =
     (case cleaning_func of
        CleanupUrl \<Rightarrow>
          (case dirty_value of
             PStr url \<Rightarrow> cleanup_url urlparse_scheme net url provider w
           | _ \<Rightarrow> (Inl AttributeError, w))
      | CleanupTags \<Rightarrow> (cleanup_tags dirty_value, w))"

text \<open>\<^verbatim>\<open>if clean:\<close> on what a cleaning function returned: \<^verbatim>\<open>None\<close> and the empty
  string are falsy, a \<^verbatim>\<open>Json\<close> object is truthy.\<close>

fun clean_truthy :: "cleaned option \<Rightarrow> bool" where
  "clean_truthy None = False"
| "clean_truthy (Some (SqlLiteral s)) = (s \<noteq> [])"
| "clean_truthy (Some (Json tag_output)) = True"

text \<open>
  \<^verbatim>\<open>_cleanup_config['tables']['image']['providers']\<close>, the only table of the
  configuration: one entry, for all providers.
\<close>

definition image_global_fields :: "(string \<times> cleaning_func) list" where
  "image_global_fields =
     [(''tags'', CleanupTags), (''url'', CleanupUrl), (''creator_url'', CleanupUrl),
      (''foreign_landing_url'', CleanupUrl), (''thumbnail'', CleanupUrl)]"

definition image_providers_config :: "(string \<times> (string \<times> cleaning_func) list) list" where
  "image_providers_config = [(''*'', image_global_fields)]"

text \<open>
  A row of the selection \<^verbatim>\<open>SELECT id, provider, <fields>\<close>: \<^verbatim>\<open>row[name]\<close> is the value
  of the column, and raises \<^verbatim>\<open>KeyError\<close> for a name that was not selected. (A NULL
  provider reads as \<^verbatim>\<open>None\<close>, which is a key of no dict here and behaves as a provider
  string that no dict has.)
\<close>

record row =
  row_id :: int
  row_provider :: string
  row_columns :: "string \<rightharpoonup> pyval"

definition row_get :: "row \<Rightarrow> string \<Rightarrow> pyval option" where
  "row_get r name =
     (if name = ''id'' then Some (PNum (of_int (row_id r)))
      else if name = ''provider'' then Some (PStr (row_provider r))
      else row_columns r name)"

text \<open>
  The rule table of a row: \<^verbatim>\<open>providers_config\<close> maps a provider (or \<^verbatim>\<open>'*'\<close>) to its
  dict of fields, and the provider's dict is merged over the global one.
\<close>

definition fields_to_update ::
    "(string \<times> (string \<times> cleaning_func) list) list \<Rightarrow> (string \<times> cleaning_func) list \<Rightarrow> string \<Rightarrow>
     (string \<times> cleaning_func) list" where
  "fields_to_update providers_config global_field_to_func provider =
     (case map_of providers_config provider of
        Some provider_field_to_func \<Rightarrow> dict_merge global_field_to_func provider_field_to_func
      | None \<Rightarrow> global_field_to_func)"

text \<open>
  The loop \<^verbatim>\<open>for update_field in fields_to_update\<close> with its dict \<^verbatim>\<open>cleaned_data\<close>: the
  items of the rule table in order, each key with its function.
\<close>

fun clean_fields ::
    "(string \<Rightarrow> py_error + string) \<Rightarrow> network \<Rightarrow> (string \<times> cleaning_func) list \<Rightarrow> row \<Rightarrow>
     (string \<times> cleaned) list \<Rightarrow> world \<Rightarrow> (py_error + (string \<times> cleaned) list) \<times> world" where
  "clean_fields urlparse_scheme net [] r cleaned_data w = (Inr cleaned_data, w)"
| "clean_fields urlparse_scheme net ((update_field, cleaning_func) # rest) r cleaned_data w =
     (case row_get r update_field of
        None \<Rightarrow> (Inl KeyError, w)
      | Some dirty_value \<Rightarrow>
          if \<not> truthy dirty_value then clean_fields urlparse_scheme net rest r cleaned_data w
          else
            (case call_cleaning_func urlparse_scheme net cleaning_func dirty_value
                    (row_provider r) w of
               (Inl e, w') \<Rightarrow> (Inl e, w')
             | (Inr clean, w') \<Rightarrow>
                 (case clean of
                    Some c \<Rightarrow>
                      if clean_truthy clean
                      then clean_fields urlparse_scheme net rest r
                             (AList.update update_field c cleaned_data) w'
                      else clean_fields urlparse_scheme net rest r cleaned_data w'
                  | None \<Rightarrow> clean_fields urlparse_scheme net rest r cleaned_data w')))"

text \<open>
  The text of the statement. \<^verbatim>\<open>str.format\<close> puts the string of each argument in its
  place: a string as it is, an int in decimal, and a \<^verbatim>\<open>Json\<close> object as the adapter of
  the database driver writes it, which is a parameter, \<^verbatim>\<open>json_sql\<close>.
  \<^verbatim>\<open>', '.join\<close> puts the separator between the expressions. The template is a
  triple-quoted string: a line feed and sixteen spaces before \<^verbatim>\<open>UPDATE\<close>, a line feed
  and twelve spaces after the id.
\<close>

function str_of_nat :: "nat \<Rightarrow> string" where
  "str_of_nat n =
     (if n < 10 then [''0123456789'' ! n]
      else str_of_nat (n div 10) @ [''0123456789'' ! (n mod 10)])"
  by pat_completeness auto
termination
  by (relation "measure (\<lambda>n. n)") auto

definition str_of_int :: "int \<Rightarrow> string" where
  "str_of_int i = (if i < 0 then ''-'' @ str_of_nat (nat (- i)) else str_of_nat (nat i))"

fun str_join :: "string \<Rightarrow> string list \<Rightarrow> string" where
  "str_join sep [] = []"
| "str_join sep [x] = x"
| "str_join sep (x # y # ys) = x @ sep @ str_join sep (y # ys)"

definition field_expression :: "(pyval list \<Rightarrow> string) \<Rightarrow> string \<times> cleaned \<Rightarrow> string" where
  "field_expression json_sql fc =
     (case fc of
        (field, SqlLiteral s) \<Rightarrow> field @ '' = '' @ s
      | (field, Json tag_output) \<Rightarrow> field @ '' = '' @ json_sql tag_output)"

definition update_query :: "string \<Rightarrow> string list \<Rightarrow> int \<Rightarrow> string" where
  "update_query temp_table update_field_expressions id' =
     [CHR 0x0A] @ replicate 16 (CHR '' '') @
     ''UPDATE '' @ temp_table @ '' SET '' @ str_join '', '' update_field_expressions @
     '' WHERE id = '' @ str_of_int id' @
     [CHR 0x0A] @ replicate 12 (CHR '' '')"

text \<open>
  The body of \<^verbatim>\<open>for row in rows\<close>: the fields are cleaned, one expression
  \<^verbatim>\<open>field = cleaned\<close> is formatted for each item of \<^verbatim>\<open>cleaned_data\<close>, and when there
  is one at least the statement is formatted and executed. Executing a statement appends its
  text to the statements of the connection; what the database does with the text, its errors
  included, is not part of the model.
\<close>

definition clean_row ::
    "(string \<Rightarrow> py_error + string) \<Rightarrow> network \<Rightarrow> (pyval list \<Rightarrow> string) \<Rightarrow> string \<Rightarrow>
     (string \<times> (string \<times> cleaning_func) list) list \<Rightarrow> (string \<times> cleaning_func) list \<Rightarrow> row \<Rightarrow>
     world \<Rightarrow> (py_error + unit) \<times> world" where
  "clean_row urlparse_scheme net json_sql temp_table providers_config global_field_to_func r w =
     (case clean_fields urlparse_scheme net
             (fields_to_update providers_config global_field_to_func (row_provider r)) r [] w of
        (Inl e, w') \<Rightarrow> (Inl e, w')
      | (Inr cleaned_data, w') \<Rightarrow>
          (let update_field_expressions = map (field_expression json_sql) cleaned_data
           in if length update_field_expressions > 0
              then (Inr (),
                    w'\<lparr>executed := executed w' @
                          [update_query temp_table update_field_expressions (row_id r)]\<rparr>)
              else (Inr (), w')))"

fun rows_loop ::
    "(string \<Rightarrow> py_error + string) \<Rightarrow> network \<Rightarrow> (pyval list \<Rightarrow> string) \<Rightarrow> string \<Rightarrow>
     (string \<times> (string \<times> cleaning_func) list) list \<Rightarrow> (string \<times> cleaning_func) list \<Rightarrow> row list \<Rightarrow>
     world \<Rightarrow> (py_error + unit) \<times> world" where
  "rows_loop urlparse_scheme net json_sql temp_table providers_config global_field_to_func [] w =
     (Inr (), w)"
| "rows_loop urlparse_scheme net json_sql temp_table providers_config global_field_to_func
     (r # rows) w =
     (case clean_row urlparse_scheme net json_sql temp_table providers_config
             global_field_to_func r w of
        (Inl e, w') \<Rightarrow> (Inl e, w')
      | (Inr u, w') \<Rightarrow>
          rows_loop urlparse_scheme net json_sql temp_table providers_config
            global_field_to_func rows w')"

text \<open>
  \<^verbatim>\<open>_clean_data_worker(rows, temp_table, providers_config, tls_support)\<close>, on the world
  that holds \<^verbatim>\<open>tls_support\<close>. \<^verbatim>\<open>providers_config['*']\<close> raises \<^verbatim>\<open>KeyError\<close> when
  there is no global entry. The worker returns \<^verbatim>\<open>True\<close>.
\<close>

definition clean_data_worker ::
    "(string \<Rightarrow> py_error + string) \<Rightarrow> network \<Rightarrow> (pyval list \<Rightarrow> string) \<Rightarrow> row list \<Rightarrow> string \<Rightarrow>
     (string \<times> (string \<times> cleaning_func) list) list \<Rightarrow> world \<Rightarrow> (py_error + bool) \<times> world" where
  "clean_data_worker urlparse_scheme net json_sql rows temp_table providers_config w =
     (case map_of providers_config ''*'' of
        None \<Rightarrow> (Inl KeyError, w)
      | Some global_field_to_func \<Rightarrow>
          (case rows_loop urlparse_scheme net json_sql temp_table providers_config
                  global_field_to_func rows w of
             (Inl e, w') \<Rightarrow> (Inl e, w')
           | (Inr u, w') \<Rightarrow> (Inr True, w')))"


section \<open>Well-formed tags and worked examples\<close>

text \<open>
  A tag as the staging store documents it: a record with a string \<^verbatim>\<open>name\<close> and, when it
  has an \<^verbatim>\<open>accuracy\<close>, a number there.
\<close>

definition well_formed_tag :: "pyval \<Rightarrow> bool" where
  "well_formed_tag t =
     (case t of
        PDict d \<Rightarrow>
          tag_name t \<noteq> None \<and> (map_of d ''accuracy'' \<noteq> None \<longrightarrow> tag_accuracy t \<noteq> None)
      | _ \<Rightarrow> False)"

definition tag_cc0 :: pyval where
  "tag_cc0 = PDict [(''name'', PStr ''cc0''), (''accuracy'', PNum 1)]"

definition tag_sunset :: pyval where
  "tag_sunset = PDict [(''name'', PStr ''sunset''), (''accuracy'', PNum (95 / 100))]"

definition tag_blurry :: pyval where
  "tag_blurry = PDict [(''name'', PStr ''tree''), (''accuracy'', PNum (1 / 2))]"

text \<open>
  Three networks: one whose servers answer every request with 404, one on which every
  request fails, and one on which the GET of a URL whose host has an empty label raises
  \<^verbatim>\<open>LocationParseError\<close>. A URL that names a second URL in its path, and the samples
  of two providers.
\<close>

definition always_404 :: network where
  "always_404 reqs r = Response 404"

definition unreachable :: network where
  "unreachable reqs r = RequestException"

definition bad_host_net :: network where
  "bad_host_net reqs r =
     (if fst r = ''https://a..b/x.jpg'' then OtherException LocationParseError
      else Response 404)"

definition met_sample :: "string \<Rightarrow> (pyval \<times> pyval) list" where
  "met_sample p = (if p = ''met'' then [(PNone, PStr ''a..b/x.jpg'')] else [])"

definition archived_url :: string where
  "archived_url = ''https://web.archive.org/web/http://example.com/a.jpg''"

definition flickr_sample :: "string \<Rightarrow> (pyval \<times> pyval) list" where
  "flickr_sample p =
     (if p = ''flickr''
      then [(PStr ''https://live.staticflickr.com/1_t.jpg'',
             PStr ''https://live.staticflickr.com/1.jpg''),
            (PNone, PStr ''farm1.staticflickr.com/2.jpg'')]
      else [])"

text \<open>
  A worker's world in which the provider \<^verbatim>\<open>flickr\<close> is known to support TLS; the row of
  the specification's end-to-end example, a row on which no cleaning function returns a
  replacement, and a row whose URL holds single quotes; a configuration in which a provider overrides one global rule and adds one.
\<close>

definition flickr_world :: world where
  "flickr_world = \<lparr>tls_support = [''flickr'' \<mapsto> True], requests = [], executed = []\<rparr>"

definition flickr_row :: row where
  "flickr_row =
     \<lparr>row_id = 7, row_provider = ''flickr'',
      row_columns =
        [''tags'' \<mapsto> PList [tag_cc0, tag_sunset],
         ''url'' \<mapsto> PStr ''www.example.com/x.jpg'',
         ''creator_url'' \<mapsto> PNone,
         ''foreign_landing_url'' \<mapsto> PStr ''http://example.com/y.jpg'',
         ''thumbnail'' \<mapsto> PStr '''']\<rparr>"

definition clean_flickr_row :: row where
  "clean_flickr_row =
     \<lparr>row_id = 8, row_provider = ''flickr'',
      row_columns =
        [''tags'' \<mapsto> PList [tag_cc0],
         ''url'' \<mapsto> PStr ''http://example.com/y.jpg'',
         ''creator_url'' \<mapsto> PNone,
         ''foreign_landing_url'' \<mapsto> PNone,
         ''thumbnail'' \<mapsto> PNone]\<rparr>"

definition injected_row :: row where
  "injected_row =
     \<lparr>row_id = 9, row_provider = ''flickr'',
      row_columns =
        [''tags'' \<mapsto> PNone,
         ''url'' \<mapsto> PStr ''www.example.com/x.jpg', license = 'by'',
         ''creator_url'' \<mapsto> PNone,
         ''foreign_landing_url'' \<mapsto> PNone,
         ''thumbnail'' \<mapsto> PNone]\<rparr>"


text \<open>A fragment of a row: a registered field with a truthy value, and the replacement that
  the registered function returned for that value.\<close>

definition fragment_of ::
    "(string \<Rightarrow> py_error + string) \<Rightarrow> network \<Rightarrow> (string \<times> cleaning_func) list \<Rightarrow> row \<Rightarrow>
     string \<times> cleaned \<Rightarrow> bool" where
  "fragment_of urlparse_scheme net rules r fc =
     (\<exists>cleaning_func dirty_value w1 w2.
        (fst fc, cleaning_func) \<in> set rules \<and>
        row_get r (fst fc) = Some dirty_value \<and> truthy dirty_value \<and>
        call_cleaning_func urlparse_scheme net cleaning_func dirty_value (row_provider r) w1 =
          (Inr (Some (snd fc)), w2))"


section \<open>Properties of the tag cleanup\<close>

lemma py_less_Inr:
  "py_less a t = Inr b \<Longrightarrow>
     \<exists>r. (a = PNum r \<or> (\<exists>c. a = PBool c \<and> r = (if c then 1 else 0))) \<and> b = (r < t)"
  by (cases a) auto

text \<open>Whenever the loop body decides at all, it decides as the specification words it.\<close>

lemma should_filter_Inr:
  assumes "should_filter t = Inr b"
  shows "b = blacklisted_or_inaccurate t"
proof (cases t)
  case (PDict d)
  show ?thesis
  proof (cases "map_of d ''accuracy''")
    case None
    with assms PDict show ?thesis
      by (auto simp: blacklisted_or_inaccurate_def tag_name_def tag_accuracy_def
          split: option.splits pyval.splits)
  next
    case (Some a)
    with assms PDict obtain below where b: "py_less a TAG_MIN_CONFIDENCE = Inr below"
      by (auto split: sum.splits)
    from py_less_Inr [OF b] Some assms PDict b show ?thesis
      by (auto simp: blacklisted_or_inaccurate_def tag_name_def tag_accuracy_def
          TAG_MIN_CONFIDENCE_def split: option.splits pyval.splits)
  qed
qed (use assms in auto)

lemma should_filter_well_formed:
  assumes "well_formed_tag t"
  shows "should_filter t = Inr (blacklisted_or_inaccurate t)"
proof -
  from assms have "\<exists>b. should_filter t = Inr b"
    by (auto simp: well_formed_tag_def tag_name_def tag_accuracy_def
        split: pyval.splits option.splits)
  then show ?thesis using should_filter_Inr by blast
qed

lemma tags_loop_Inr:
  "tags_loop ts out upd = Inr (out', upd') \<Longrightarrow>
     out' = out @ filter (\<lambda>t. \<not> blacklisted_or_inaccurate t) ts \<and>
     upd' = (upd \<or> filter (\<lambda>t. \<not> blacklisted_or_inaccurate t) ts \<noteq> [])"
proof (induction ts arbitrary: out upd)
  case Nil
  then show ?case by simp
next
  case (Cons t ts)
  from Cons.prems obtain b where b: "should_filter t = Inr b"
    by (auto split: sum.splits)
  then have bl: "b = blacklisted_or_inaccurate t" by (rule should_filter_Inr)
  show ?case
  proof (cases b)
    case True
    with Cons.prems b have "tags_loop ts out upd = Inr (out', upd')" by simp
    from Cons.IH [OF this] True bl show ?thesis by simp
  next
    case False
    with Cons.prems b have "tags_loop ts (out @ [t]) True = Inr (out', upd')" by simp
    from Cons.IH [OF this] False bl show ?thesis by simp
  qed
qed

lemma tags_loop_all_filtered:
  "\<forall>t\<in>set ts. should_filter t = Inr True \<Longrightarrow> tags_loop ts out upd = Inr (out, upd)"
  by (induction ts arbitrary: out upd) auto

lemma cleanup_tags_Some:
  assumes "cleanup_tags tags = Inr (Some c)"
  shows "\<exists>ts. tags = PList ts \<and> c = Json (filter (\<lambda>t. \<not> blacklisted_or_inaccurate t) ts)
    \<and> filter (\<lambda>t. \<not> blacklisted_or_inaccurate t) ts \<noteq> []"
proof -
  from assms obtain ts where ts: "tags = PList ts"
    by (cases tags) (auto simp: cleanup_tags_def split: if_splits)
  from assms ts obtain out upd where l: "tags_loop ts [] False = Inr (out, upd)"
    by (auto simp: cleanup_tags_def split: if_splits sum.splits)
  from assms ts l have "upd" "c = Json out"
    by (auto simp: cleanup_tags_def split: if_splits)
  with tags_loop_Inr [OF l] ts show ?thesis by auto
qed

lemma cleanup_tags_example:
  "cleanup_tags (PList [tag_cc0, tag_sunset]) = Inr (Some (Json [tag_sunset]))"
  by code_simp



text \<open>
  Claim C7. \<^verbatim>\<open>cleanup_tags\<close> returns a replacement only when a tag is retained: a
  replacement is never the empty collection; a falsy argument (\<^verbatim>\<open>None\<close>, the empty list)
  returns \<^verbatim>\<open>None\<close>; and a collection of well-formed tags that are all blacklisted or
  inaccurate, which is one where the loop filters every tag, returns \<^verbatim>\<open>None\<close>.
\<close>

theorem cleanup_tags_no_empty_update:
  "(cleanup_tags tags = Inr (Some c) \<longrightarrow> (\<exists>tag_output. c = Json tag_output \<and> tag_output \<noteq> [])) \<and>
   (\<not> truthy tags \<longrightarrow> cleanup_tags tags = Inr None) \<and>
   ((\<forall>t\<in>set ts. well_formed_tag t \<and> blacklisted_or_inaccurate t) \<longrightarrow>
      cleanup_tags (PList ts) = Inr None) \<and>
   ((\<forall>t\<in>set ts. should_filter t = Inr True) \<longrightarrow> cleanup_tags (PList ts) = Inr None)"
proof (intro conjI impI)
  assume "cleanup_tags tags = Inr (Some c)"
  from cleanup_tags_Some [OF this] show "\<exists>tag_output. c = Json tag_output \<and> tag_output \<noteq> []"
    by auto
next
  assume "\<not> truthy tags"
  then show "cleanup_tags tags = Inr None" by (simp add: cleanup_tags_def)
next
  assume a: "\<forall>t\<in>set ts. should_filter t = Inr True"
  show "cleanup_tags (PList ts) = Inr None"
    using tags_loop_all_filtered [OF a, of "[]" False] by (simp add: cleanup_tags_def)
next
  assume "\<forall>t\<in>set ts. well_formed_tag t \<and> blacklisted_or_inaccurate t"
  then have a: "\<forall>t\<in>set ts. should_filter t = Inr True"
    using should_filter_well_formed by auto
  show "cleanup_tags (PList ts) = Inr None"
    using tags_loop_all_filtered [OF a, of "[]" False] by (simp add: cleanup_tags_def)
qed

lemma tag_examples_well_formed:
  "well_formed_tag tag_cc0" "well_formed_tag tag_blurry"
  "blacklisted_or_inaccurate tag_cc0" "blacklisted_or_inaccurate tag_blurry"
  by code_simp+

lemma tag_examples_filtered:
  "should_filter tag_cc0 = Inr True" "should_filter tag_blurry = Inr True"
  by code_simp+

theorem cleanup_tags_no_empty_update_witness:
  "cleanup_tags (PList [tag_cc0, tag_sunset]) = Inr (Some (Json [tag_sunset])) \<and>
   (\<exists>tag_output. Json [tag_sunset] = Json tag_output \<and> tag_output \<noteq> []) \<and>
   \<not> truthy PNone \<and> cleanup_tags PNone = Inr None \<and>
   \<not> truthy (PList []) \<and> cleanup_tags (PList []) = Inr None \<and>
   well_formed_tag tag_cc0 \<and> blacklisted_or_inaccurate tag_cc0 \<and>
   well_formed_tag tag_blurry \<and> blacklisted_or_inaccurate tag_blurry \<and>
   should_filter tag_cc0 = Inr True \<and> should_filter tag_blurry = Inr True \<and>
   cleanup_tags (PList [tag_cc0, tag_blurry]) = Inr None"
  using cleanup_tags_example tag_examples_well_formed tag_examples_filtered
    cleanup_tags_no_empty_update
      [of "PList [tag_cc0, tag_sunset]" "Json [tag_sunset]" "[tag_cc0, tag_blurry]"]
    cleanup_tags_no_empty_update [of PNone _ "[]"]
    cleanup_tags_no_empty_update [of "PList []" _ "[]"]
  by simp


section \<open>Properties of the division into jobs\<close>

text \<open>
  With one worker the only job is the whole batch. With two workers or more, every batch
  that is not empty loses rows: the jobs together hold fewer rows than the batch.
\<close>

lemma length_py_slice:
  "0 \<le> i \<Longrightarrow> 0 \<le> j \<Longrightarrow> length (py_slice xs i j) \<le> nat (j - i)"
  by (auto simp: py_slice_def Let_def min_def)

lemma schedule_jobs_zero:
  "- 1 \<le> e \<Longrightarrow> concat (schedule_jobs batch 0 ms e) = []"
proof (induction ms arbitrary: e)
  case Nil
  then show ?case by simp
next
  case (Cons m ms)
  have "py_slice batch (e + 1) 0 = []"
    using Cons.prems by (simp add: py_slice_def Let_def)
  with Cons.IH [of 0] show ?case by (simp add: Let_def)
qed

lemma schedule_jobs_rest:
  "1 \<le> js \<Longrightarrow> 0 \<le> k \<Longrightarrow>
     int (length (concat (schedule_jobs batch js [k + 1..n] (js * k)))) \<le> (n - k) * (js - 1) \<or> n < k"
proof (induction "nat (n - k)" arbitrary: k)
  case 0
  then have "n \<le> k" by simp
  then have "[k + 1..n] = []" by simp
  with \<open>n \<le> k\<close> show ?case by (cases "n = k") auto
next
  case (Suc d)
  then have kn: "k < n" by linarith
  then have up: "[k + 1..n] = (k + 1) # [k + 1 + 1..n]"
    by (simp add: upto_rec1)
  have "0 \<le> js * k" using Suc.prems by simp
  then have "length (py_slice batch (js * k + 1) (js * (k + 1))) \<le> nat (js * (k + 1) - (js * k + 1))"
    using Suc.prems by (intro length_py_slice) (auto simp: algebra_simps)
  then have a: "int (length (py_slice batch (js * k + 1) (js * (k + 1)))) \<le> js - 1"
    using Suc.prems by (simp add: algebra_simps)
  from Suc.hyps(2) have d: "d = nat (n - (k + 1))" by linarith
  from Suc.hyps(1) [OF d Suc.prems(1)] Suc.prems(2) kn
  have b: "int (length (concat (schedule_jobs batch js [k + 1 + 1..n] (js * (k + 1))))) \<le>
      (n - (k + 1)) * (js - 1)"
    by auto
  from a b have "int (length (concat (schedule_jobs batch js [k + 1..n] (js * k)))) \<le>
      (js - 1) + (n - (k + 1)) * (js - 1)"
    unfolding up by (simp add: Let_def)
  also have "\<dots> = (n - k) * (js - 1)" by (simp add: algebra_simps)
  finally show ?case by simp
qed

lemma divide_work_loses_rows:
  assumes "2 \<le> num_workers" and "batch \<noteq> []" and "divide_work batch num_workers = Inr jobs"
  shows "length (concat jobs) < length batch"
proof -
  let ?js = "int (length batch) div num_workers"
  from assms have jobs: "jobs = schedule_jobs batch ?js [1..num_workers] (- 1)"
    by (auto simp: divide_work_def job_size_of_def)
  have js0: "0 \<le> ?js" using assms(1) by (simp add: pos_imp_zdiv_nonneg_iff)
  show ?thesis
  proof (cases "?js = 0")
    case True
    have "concat (schedule_jobs batch 0 [1..num_workers] (- 1)) = []"
      by (rule schedule_jobs_zero) simp
    then have c: "concat jobs = []" unfolding jobs True .
    have "length (concat jobs) = 0" unfolding c by (rule list.size)
    moreover from assms(2) have "0 < length batch" by (rule length_greater_0_conv [THEN iffD2])
    ultimately show ?thesis by (simp only:)
  next
    case False
    with js0 have js1: "1 \<le> ?js" by simp
    from assms(1) have up: "[1..num_workers] = 1 # [1 + 1..num_workers]"
      by (simp add: upto_rec1)
    have first: "int (length (py_slice batch 0 ?js)) \<le> ?js"
      using length_py_slice [of 0 ?js batch] js0 by simp
    from schedule_jobs_rest [OF js1, of 1 batch num_workers] assms(1)
    have rest: "int (length (concat (schedule_jobs batch ?js [1 + 1..num_workers] ?js))) \<le>
        (num_workers - 1) * (?js - 1)"
      by simp
    have "int (length (concat jobs)) \<le> ?js + (num_workers - 1) * (?js - 1)"
      unfolding jobs up using first rest by (simp add: Let_def)
    also have "\<dots> = num_workers * ?js - (num_workers - 1)" by (simp add: algebra_simps)
    also have "\<dots> \<le> int (length batch) - (num_workers - 1)"
    proof -
      have "num_workers * ?js \<le> int (length batch)"
        using assms(1) mult_div_mod_eq [of num_workers "int (length batch)"]
          pos_mod_sign [of num_workers "int (length batch)"] by linarith
      then show ?thesis by simp
    qed
    also have "\<dots> < int (length batch)" using assms(1) by simp
    finally show ?thesis by simp
  qed
qed

lemma divide_work_one_worker: "divide_work batch 1 = Inr [batch]"
  by (simp add: divide_work_def job_size_of_def py_slice_def Let_def)

text \<open>
  Claim C1. The slices of a batch should cover it: every row in exactly one slice. The loop
  starts each slice one past the end of the slice before it, and the end of a slice is
  already exclusive, so the row at every boundary is in no slice; and the rows past
  \<^verbatim>\<open>job_size * num_workers\<close> are in none either. For a batch of four rows and two
  workers the jobs are the first two rows and the last row: the third row reaches no worker.
\<close>

theorem divide_work_drops_row:
  "divide_work [0, 1, 2, 3 :: nat] 2 = Inr [[0, 1], [3]]"
  by code_simp


section \<open>Properties of the TLS probe\<close>

declare test_tls_supported.simps [simp del] str_replace.simps [simp del]
  recursive_calls.simps [simp del] str_of_nat.simps [simp del]

lemma startswith_append: "startswith (p @ s) p"
  by (induction p) auto

lemma str_in_prepend: "str_in p (p @ s)"
  by (cases "p @ s") (use startswith_append [of p s] in auto)

lemma no_protocol_fixed_url: "\<not> no_protocol (''http://'' @ url)"
  unfolding no_protocol_def using str_in_prepend [of "''http://''" url] by blast

lemma str_in_fixed_url: "str_in ''http://'' (''http://'' @ url)"
  by (rule str_in_prepend)

lemma recursive_calls_le_1: "recursive_calls url \<le> 1"
proof (cases "no_protocol url")
  case True
  have "recursive_calls (''http://'' @ url) = 0"
    by (subst recursive_calls.simps) (simp only: no_protocol_fixed_url if_False)
  with True show ?thesis by (subst recursive_calls.simps) simp
next
  case False
  then show ?thesis by (subst recursive_calls.simps) simp
qed

lemma test_tls_supported_fixed_url:
  "test_tls_supported net (''http://'' @ url) reqs =
     https_probe net (str_replace ''http://'' ''https://'' (''http://'' @ url)) reqs"
  by (subst test_tls_supported.simps)
    (simp only: no_protocol_fixed_url str_in_fixed_url if_False if_True Let_def)

lemma test_tls_supported_unfold:
  "test_tls_supported net url reqs =
     (if no_protocol url then
        https_probe net (str_replace ''http://'' ''https://'' (''http://'' @ url)) reqs
      else if str_in ''http://'' url then
        https_probe net (str_replace ''http://'' ''https://'' url) reqs
      else (Inr True, reqs))"
  by (subst test_tls_supported.simps) (simp only: test_tls_supported_fixed_url Let_def)

lemma str_replace_absent: "old \<noteq> [] \<Longrightarrow> \<not> str_in old s \<Longrightarrow> str_replace old new s = s"
proof (induction s)
  case Nil
  then show ?case by (subst str_replace.simps) simp
next
  case (Cons c cs)
  then show ?case by (subst str_replace.simps) auto
qed

lemma str_replace_prefix:
  "old \<noteq> [] \<Longrightarrow> str_replace old new (old @ s) = new @ str_replace old new s"
  by (subst str_replace.simps) (auto simp: startswith_append)

lemma https_probe_requests: "snd (https_probe net u reqs) = reqs @ [(u, 2)]"
  by (simp add: https_probe_def split: http_outcome.splits)

lemma https_probe_result:
  "fst (https_probe net u reqs) =
     (case net reqs (u, 2) of
        Response status_code \<Rightarrow> Inr (200 \<le> status_code \<and> status_code < 400)
      | RequestException \<Rightarrow> Inr False
      | OtherException e \<Rightarrow> Inl e)"
  by (simp add: https_probe_def split: http_outcome.splits)

lemma https_probe_caught:
  "\<forall>e. net reqs (u, 2) \<noteq> OtherException e \<Longrightarrow> \<exists>b. https_probe net u reqs = (Inr b, reqs @ [(u, 2)])"
  by (cases "net reqs (u, 2)") (auto simp: https_probe_def)

lemma test_tls_supported_caught:
  assumes "\<forall>reqs r e. net reqs r \<noteq> OtherException e"
  shows "\<exists>b reqs'. test_tls_supported net url reqs = (Inr b, reqs')"
proof -
  from assms have "\<And>u. \<exists>b. https_probe net u reqs = (Inr b, reqs @ [(u, 2)])"
    by (intro https_probe_caught) simp
  then show ?thesis
    unfolding test_tls_supported_unfold [of net url reqs] by (auto split: if_splits) metis+
qed

lemma test_tls_supported_by_prefix:
  "(no_protocol url \<longrightarrow>
      test_tls_supported net url reqs = test_tls_supported net (''http://'' @ url) reqs) \<and>
   (\<not> str_in ''http://'' rest \<longrightarrow>
      test_tls_supported net (''http://'' @ rest) reqs =
        https_probe net (''https://'' @ rest) reqs) \<and>
   (startswith url ''https://'' \<and> \<not> str_in ''http://'' url \<longrightarrow>
      test_tls_supported net url reqs = (Inr True, reqs))"
proof (intro conjI impI)
  assume "no_protocol url"
  then have "test_tls_supported net url reqs =
      https_probe net (str_replace ''http://'' ''https://'' (''http://'' @ url)) reqs"
    by (subst test_tls_supported_unfold) (simp only: if_True)
  then show "test_tls_supported net url reqs = test_tls_supported net (''http://'' @ url) reqs"
    by (simp only: test_tls_supported_fixed_url)
next
  assume a: "\<not> str_in ''http://'' rest"
  have "str_replace ''http://'' ''https://'' (''http://'' @ rest) = ''https://'' @ rest"
    using str_replace_prefix [of "''http://''" "''https://''" rest]
      str_replace_absent [OF _ a, of "''https://''"] by simp
  then show "test_tls_supported net (''http://'' @ rest) reqs =
      https_probe net (''https://'' @ rest) reqs"
    by (simp only: test_tls_supported_fixed_url)
next
  assume a: "startswith url ''https://'' \<and> \<not> str_in ''http://'' url"
  then have "\<not> no_protocol url"
    by (cases url) (auto simp: no_protocol_def)
  with a show "test_tls_supported net url reqs = (Inr True, reqs)"
    by (simp add: test_tls_supported_unfold [of net url])
qed

text \<open>
  Claim C10. \<^verbatim>\<open>test_tls_supported\<close> terminates on every string (it is a total function,
  by the measure that is 1 on a URL with neither marker and 0 elsewhere), and it calls
  itself at most once: the argument of the recursive call, the URL with \<^verbatim>\<open>http://\<close>
  prepended, fails the test of the recursive branch and makes no further call. So the
  function has a closed form without recursion.
\<close>

theorem test_tls_supported_recursion:
  "recursive_calls url \<le> 1 \<and>
   \<not> no_protocol (''http://'' @ url) \<and>
   recursive_calls (''http://'' @ url) = 0 \<and>
   test_tls_supported net url reqs =
     (if no_protocol url then
        https_probe net (str_replace ''http://'' ''https://'' (''http://'' @ url)) reqs
      else if str_in ''http://'' url then
        https_probe net (str_replace ''http://'' ''https://'' url) reqs
      else (Inr True, reqs))"
proof -
  have "recursive_calls (''http://'' @ url) = 0"
    by (subst recursive_calls.simps) (simp only: no_protocol_fixed_url if_False)
  then show ?thesis
    using recursive_calls_le_1 no_protocol_fixed_url test_tls_supported_unfold by blast
qed

theorem test_tls_supported_recursion_witness:
  "recursive_calls ''www.example.com/x.jpg'' = 1 \<and>
   recursive_calls ''http://www.example.com/x.jpg'' = 0 \<and>
   no_protocol ''www.example.com/x.jpg'' \<and>
   test_tls_supported always_404 ''www.example.com/x.jpg'' [] =
     https_probe always_404 ''https://www.example.com/x.jpg'' []"
proof -
  have a: "no_protocol ''www.example.com/x.jpg''" "recursive_calls ''www.example.com/x.jpg'' = 1"
    "str_replace ''http://'' ''https://'' (''http://'' @ ''www.example.com/x.jpg'') = ''https://www.example.com/x.jpg''"
    by code_simp+
  from a test_tls_supported_recursion [of "''www.example.com/x.jpg''" always_404 "[]"]
  show ?thesis by simp
qed

text \<open>
  Claim C5. The three branches are chosen by substring tests, not by the scheme the URL
  starts with. A URL that specifies the encrypted scheme and names an unencrypted URL further
  on contains \<^verbatim>\<open>http://\<close>: it takes the second branch, every \<^verbatim>\<open>http://\<close> in it is
  rewritten, and a GET is made, whose answer decides. On a network that answers 404 the URL
  is not trusted, against the comment on the last \<^verbatim>\<open>return True\<close>.
\<close>

theorem test_tls_supported_embedded_url:
  "startswith archived_url ''https://'' \<and>
   test_tls_supported always_404 archived_url [] =
     (Inr False, [(''https://web.archive.org/web/https://example.com/a.jpg'', 2)])"
  by code_simp

lemma tally_Cons_str:
  "tally net (PStr url # img_list) h s reqs =
     (case test_tls_supported net url reqs of
        (Inl e, reqs') \<Rightarrow> (Inl e, reqs')
      | (Inr tls_supported, reqs') \<Rightarrow>
          if tls_supported then tally net img_list h (s + 1) reqs'
          else tally net img_list (h + 1) s reqs')"
  by (simp add: test_tls_supported_value_def)

lemma tally_counts:
  "tally net img_list h s reqs = (Inr (h', s'), reqs') \<Longrightarrow>
     h' + s' = h + s + length img_list \<and> h \<le> h' \<and> s \<le> s'"
proof (induction img_list arbitrary: h s reqs)
  case Nil
  then show ?case by simp
next
  case (Cons v vs)
  from Cons.prems obtain b r where
    v: "test_tls_supported_value net v reqs = (Inr b, r)"
    by (auto split: prod.splits sum.splits)
  show ?case
  proof (cases b)
    case True
    with Cons.prems v have "tally net vs h (s + 1) r = (Inr (h', s'), reqs')" by simp
    from Cons.IH [OF this] show ?thesis by simp
  next
    case False
    with Cons.prems v have "tally net vs (h + 1) s r = (Inr (h', s'), reqs')" by simp
    from Cons.IH [OF this] show ?thesis by simp
  qed
qed

lemma tally_strings_never_fail:
  assumes "\<forall>reqs r e. net reqs r \<noteq> OtherException e"
  shows "\<forall>v\<in>set img_list. \<exists>u. v = PStr u \<Longrightarrow>
     \<exists>scores reqs'. tally net img_list h s reqs = (Inr scores, reqs')"
proof (induction img_list arbitrary: h s reqs)
  case Nil
  then show ?case by simp
next
  case (Cons v vs)
  then obtain u where u: "v = PStr u" by auto
  from test_tls_supported_caught [OF assms, of u reqs] obtain b r where
    t: "test_tls_supported net u reqs = (Inr b, r)" by blast
  from Cons have "\<And>h s reqs. \<exists>scores reqs'. tally net vs h s reqs = (Inr scores, reqs')"
    by simp
  then show ?case unfolding u tally_Cons_str t by simp
qed

lemma probe_vote:
  assumes "str_in ''http://'' url \<or> no_protocol url"
  shows "tally net (PStr url # img_list) h s reqs =
    (case net reqs (str_replace ''http://'' ''https://''
                     (if no_protocol url then ''http://'' @ url else url), 2) of
       Response status_code \<Rightarrow>
         if 200 \<le> status_code \<and> status_code < 400
         then tally net img_list h (s + 1)
                (reqs @ [(str_replace ''http://'' ''https://''
                           (if no_protocol url then ''http://'' @ url else url), 2)])
         else tally net img_list (h + 1) s
                (reqs @ [(str_replace ''http://'' ''https://''
                           (if no_protocol url then ''http://'' @ url else url), 2)])
     | RequestException \<Rightarrow>
         tally net img_list (h + 1) s
           (reqs @ [(str_replace ''http://'' ''https://''
                      (if no_protocol url then ''http://'' @ url else url), 2)])
     | OtherException e \<Rightarrow>
         (Inl e, reqs @ [(str_replace ''http://'' ''https://''
                           (if no_protocol url then ''http://'' @ url else url), 2)]))"
proof -
  let ?u = "str_replace ''http://'' ''https://'' (if no_protocol url then ''http://'' @ url else url)"
  from assms have "test_tls_supported net url reqs = https_probe net ?u reqs"
    by (auto simp: test_tls_supported_unfold [of net url])
  then show ?thesis
    by (simp only: tally_Cons_str) (simp add: https_probe_def split: http_outcome.splits)
qed

lemma trusted_vote:
  assumes "str_in ''https://'' url" and "\<not> str_in ''http://'' url"
  shows "tally net (PStr url # img_list) h s reqs = tally net img_list h (s + 1) reqs"
proof -
  from assms have "test_tls_supported net url reqs = (Inr True, reqs)"
    by (simp add: test_tls_supported_unfold [of net url] no_protocol_def)
  then show ?thesis by (simp only: tally_Cons_str) simp
qed

lemma provider_loop_frame:
  "provider_loop net sample ps m reqs = (Inr m', reqs') \<Longrightarrow> q \<notin> set ps \<Longrightarrow> m' q = m q"
proof (induction ps arbitrary: m reqs)
  case Nil
  then show ?case by simp
next
  case (Cons p ps)
  from Cons.prems(1) obtain scores r where
    t: "tally net (img_list_of (sample p)) 0 0 reqs = (Inr scores, r)"
    by (auto split: prod.splits sum.splits)
  with Cons.prems(1) have
    "provider_loop net sample ps (m(p \<mapsto> provider_decision scores)) r = (Inr m', reqs')"
    by simp
  from Cons.IH [OF this] Cons.prems(2) show ?case by simp
qed

lemma provider_loop_decides:
  "provider_loop net sample ps m reqs = (Inr m', reqs') \<Longrightarrow> p \<in> set ps \<Longrightarrow>
     \<exists>http_score https_score r1 r2.
        tally net (img_list_of (sample p)) 0 0 r1 = (Inr (http_score, https_score), r2) \<and>
        http_score + https_score = length (sample p) \<and>
        m' p = Some (https_score \<ge> http_score)"
proof (induction ps arbitrary: m reqs)
  case Nil
  then show ?case by simp
next
  case (Cons q ps)
  from Cons.prems(1) obtain h s r where
    t: "tally net (img_list_of (sample q)) 0 0 reqs = (Inr (h, s), r)"
    by (auto split: prod.splits sum.splits)
  with Cons.prems(1) have
    rest: "provider_loop net sample ps (m(q \<mapsto> provider_decision (h, s))) r = (Inr m', reqs')"
    by simp
  show ?case
  proof (cases "p \<in> set ps")
    case True
    from Cons.IH [OF rest True] show ?thesis .
  next
    case False
    with Cons.prems(2) have pq: "p = q" by simp
    from provider_loop_frame [OF rest False] pq
    have "m' p = Some (s \<ge> h)" by (simp add: provider_decision_def)
    moreover from tally_counts [OF t] have "h + s = length (sample q)"
      by (simp add: img_list_of_def)
    ultimately show ?thesis using t pq by blast
  qed
qed

text \<open>
  Claim C6, as amended. When the prober returns a mapping, every provider of the catalog is
  mapped to the comparison \<^verbatim>\<open>https_score >= http_score\<close> of a tally over its sample, in
  which every sampled URL cast one vote; a tie is decided for the encrypted scheme. A probed
  URL votes by the answer to its GET: a status in [200, 400) adds one to
  \<^verbatim>\<open>https_score\<close>, any other status and a \<^verbatim>\<open>RequestException\<close> add one to
  \<^verbatim>\<open>http_score\<close>, and the loop goes on; a URL with \<^verbatim>\<open>https://\<close> and without
  \<^verbatim>\<open>http://\<close> in it adds one to \<^verbatim>\<open>https_score\<close> without a request. An exception of
  another class is not caught: it ends the tally as an error. On a sample of strings, and a
  network that raises nothing but \<^verbatim>\<open>RequestException\<close>, the tally returns its scores.
\<close>

theorem provider_tls_decision:
  "(test_provider_tls_images_available net providers sample reqs = (Inr m, reqs') \<longrightarrow>
      (\<forall>p\<in>set providers. \<exists>http_score https_score r1 r2.
          tally net (img_list_of (sample p)) 0 0 r1 = (Inr (http_score, https_score), r2) \<and>
          http_score + https_score = length (sample p) \<and>
          m p = Some (https_score \<ge> http_score))) \<and>
   provider_decision (n, n) \<and>
   provider_decision (http_score, https_score) = (https_score \<ge> http_score) \<and>
   (str_in ''http://'' url \<or> no_protocol url \<longrightarrow>
      tally net (PStr url # img_list) h s reqs =
        (case net reqs (str_replace ''http://'' ''https://''
                         (if no_protocol url then ''http://'' @ url else url), 2) of
           Response status_code \<Rightarrow>
             if 200 \<le> status_code \<and> status_code < 400
             then tally net img_list h (s + 1)
                    (reqs @ [(str_replace ''http://'' ''https://''
                               (if no_protocol url then ''http://'' @ url else url), 2)])
             else tally net img_list (h + 1) s
                    (reqs @ [(str_replace ''http://'' ''https://''
                               (if no_protocol url then ''http://'' @ url else url), 2)])
         | RequestException \<Rightarrow>
             tally net img_list (h + 1) s
               (reqs @ [(str_replace ''http://'' ''https://''
                          (if no_protocol url then ''http://'' @ url else url), 2)])
         | OtherException e \<Rightarrow>
             (Inl e, reqs @ [(str_replace ''http://'' ''https://''
                               (if no_protocol url then ''http://'' @ url else url), 2)]))) \<and>
   (str_in ''https://'' url \<and> \<not> str_in ''http://'' url \<longrightarrow>
      tally net (PStr url # img_list) h s reqs = tally net img_list h (s + 1) reqs) \<and>
   ((\<forall>v\<in>set img_list. \<exists>u. v = PStr u) \<and> (\<forall>reqs r e. net reqs r \<noteq> OtherException e) \<longrightarrow>
      (\<exists>scores reqs'. tally net img_list h s reqs = (Inr scores, reqs')))"
proof (intro conjI impI ballI)
  fix p
  assume "test_provider_tls_images_available net providers sample reqs = (Inr m, reqs')"
    and "p \<in> set providers"
  then show "\<exists>http_score https_score r1 r2.
          tally net (img_list_of (sample p)) 0 0 r1 = (Inr (http_score, https_score), r2) \<and>
          http_score + https_score = length (sample p) \<and>
          m p = Some (https_score \<ge> http_score)"
    unfolding test_provider_tls_images_available_def by (rule provider_loop_decides)
next
  show "provider_decision (n, n)" by (simp add: provider_decision_def)
next
  show "provider_decision (http_score, https_score) = (https_score \<ge> http_score)"
    by (simp add: provider_decision_def)
next
  assume "str_in ''http://'' url \<or> no_protocol url"
  then show "tally net (PStr url # img_list) h s reqs =
        (case net reqs (str_replace ''http://'' ''https://''
                         (if no_protocol url then ''http://'' @ url else url), 2) of
           Response status_code \<Rightarrow>
             if 200 \<le> status_code \<and> status_code < 400
             then tally net img_list h (s + 1)
                    (reqs @ [(str_replace ''http://'' ''https://''
                               (if no_protocol url then ''http://'' @ url else url), 2)])
             else tally net img_list (h + 1) s
                    (reqs @ [(str_replace ''http://'' ''https://''
                               (if no_protocol url then ''http://'' @ url else url), 2)])
         | RequestException \<Rightarrow>
             tally net img_list (h + 1) s
               (reqs @ [(str_replace ''http://'' ''https://''
                          (if no_protocol url then ''http://'' @ url else url), 2)])
         | OtherException e \<Rightarrow>
             (Inl e, reqs @ [(str_replace ''http://'' ''https://''
                               (if no_protocol url then ''http://'' @ url else url), 2)]))"
    by (rule probe_vote)
next
  assume "str_in ''https://'' url \<and> \<not> str_in ''http://'' url"
  then show "tally net (PStr url # img_list) h s reqs = tally net img_list h (s + 1) reqs"
    using trusted_vote by blast
next
  assume "(\<forall>v\<in>set img_list. \<exists>u. v = PStr u) \<and> (\<forall>reqs r e. net reqs r \<noteq> OtherException e)"
  then show "\<exists>scores reqs'. tally net img_list h s reqs = (Inr scores, reqs')"
    using tally_strings_never_fail by blast
qed

lemma flickr_tally:
  "tally unreachable (img_list_of (flickr_sample ''flickr'')) 0 0 [] =
     (Inr (1, 1), [(''https://farm1.staticflickr.com/2.jpg'', 2)])"
  by code_simp

lemma flickr_run:
  "test_provider_tls_images_available unreachable [''flickr''] flickr_sample [] =
     (Inr [''flickr'' \<mapsto> True], [(''https://farm1.staticflickr.com/2.jpg'', 2)])"
  by (simp add: test_provider_tls_images_available_def flickr_tally provider_decision_def)

lemma flickr_probe_fails:
  "no_protocol ''farm1.staticflickr.com/2.jpg''"
  "unreachable [] (str_replace ''http://'' ''https://''
       (if no_protocol ''farm1.staticflickr.com/2.jpg''
        then ''http://'' @ ''farm1.staticflickr.com/2.jpg''
        else ''farm1.staticflickr.com/2.jpg''), 2) = RequestException"
  by (code_simp, simp add: unreachable_def)

lemma flickr_trusted:
  "str_in ''https://'' ''https://live.staticflickr.com/1_t.jpg''"
  "\<not> str_in ''http://'' ''https://live.staticflickr.com/1_t.jpg''"
  by code_simp+

lemma unreachable_caught: "\<forall>reqs r e. unreachable reqs r \<noteq> OtherException e"
  by (simp add: unreachable_def)

theorem provider_tls_decision_witness:
  "test_provider_tls_images_available unreachable [''flickr''] flickr_sample [] =
     (Inr [''flickr'' \<mapsto> True], [(''https://farm1.staticflickr.com/2.jpg'', 2)]) \<and>
   (\<exists>http_score https_score r1 r2.
      tally unreachable (img_list_of (flickr_sample ''flickr'')) 0 0 r1 =
        (Inr (http_score, https_score), r2) \<and>
      http_score + https_score = length (flickr_sample ''flickr'') \<and>
      [''flickr'' \<mapsto> True] ''flickr'' = Some (https_score \<ge> http_score)) \<and>
   provider_decision (1, 1) \<and>
   (str_in ''http://'' ''farm1.staticflickr.com/2.jpg'' \<or>
    no_protocol ''farm1.staticflickr.com/2.jpg'') \<and>
   unreachable [] (str_replace ''http://'' ''https://''
       (if no_protocol ''farm1.staticflickr.com/2.jpg''
        then ''http://'' @ ''farm1.staticflickr.com/2.jpg''
        else ''farm1.staticflickr.com/2.jpg''), 2) = RequestException \<and>
   tally unreachable [PStr ''farm1.staticflickr.com/2.jpg''] 0 1 [] =
     (Inr (1, 1), [(''https://farm1.staticflickr.com/2.jpg'', 2)]) \<and>
   str_in ''https://'' ''https://live.staticflickr.com/1_t.jpg'' \<and>
   \<not> str_in ''http://'' ''https://live.staticflickr.com/1_t.jpg'' \<and>
   tally unreachable [PStr ''https://live.staticflickr.com/1_t.jpg''] 0 0 [] = (Inr (0, 1), []) \<and>
   (\<forall>reqs r e. unreachable reqs r \<noteq> OtherException e) \<and>
   (\<exists>scores reqs'.
      tally unreachable
        [PStr ''https://live.staticflickr.com/1_t.jpg'', PStr ''farm1.staticflickr.com/2.jpg'']
        0 0 [] = (Inr scores, reqs'))"
proof -
  note t = provider_tls_decision [where net = unreachable and providers = "[''flickr'']"
      and sample = flickr_sample and reqs = "[]" and m = "[''flickr'' \<mapsto> True]"
      and reqs' = "[(''https://farm1.staticflickr.com/2.jpg'', 2)]" and n = 1
      and http_score = 1 and https_score = 1 and url = "''farm1.staticflickr.com/2.jpg''"
      and img_list = "[]" and h = 0 and s = 1]
  note t2 = provider_tls_decision [where net = unreachable and providers = "[''flickr'']"
      and sample = flickr_sample and reqs = "[]" and m = "[''flickr'' \<mapsto> True]"
      and reqs' = "[(''https://farm1.staticflickr.com/2.jpg'', 2)]" and n = 1
      and http_score = 1 and https_score = 1
      and url = "''https://live.staticflickr.com/1_t.jpg''"
      and img_list = "[]" and h = 0 and s = 0]
  note t3 = provider_tls_decision [where net = unreachable and providers = "[''flickr'']"
      and sample = flickr_sample and reqs = "[]" and m = "[''flickr'' \<mapsto> True]"
      and reqs' = "[(''https://farm1.staticflickr.com/2.jpg'', 2)]" and n = 1
      and http_score = 1 and https_score = 1
      and url = "''https://live.staticflickr.com/1_t.jpg''"
      and img_list =
        "[PStr ''https://live.staticflickr.com/1_t.jpg'', PStr ''farm1.staticflickr.com/2.jpg'']"
      and h = 0 and s = 0]
  have a: "tally unreachable [PStr ''farm1.staticflickr.com/2.jpg''] 0 1 [] =
     (Inr (1, 1), [(''https://farm1.staticflickr.com/2.jpg'', 2)])"
    by code_simp
  from t2 flickr_trusted have b:
    "tally unreachable [PStr ''https://live.staticflickr.com/1_t.jpg''] 0 0 [] = (Inr (0, 1), [])"
    by simp
  have "\<forall>v\<in>set [PStr ''https://live.staticflickr.com/1_t.jpg'',
                  PStr ''farm1.staticflickr.com/2.jpg'']. \<exists>u. v = PStr u"
    by simp
  with t3 unreachable_caught have c:
    "\<exists>scores reqs'.
      tally unreachable
        [PStr ''https://live.staticflickr.com/1_t.jpg'', PStr ''farm1.staticflickr.com/2.jpg'']
        0 0 [] = (Inr scores, reqs')"
    by blast
  from t flickr_run have d:
    "\<exists>http_score https_score r1 r2.
      tally unreachable (img_list_of (flickr_sample ''flickr'')) 0 0 r1 =
        (Inr (http_score, https_score), r2) \<and>
      http_score + https_score = length (flickr_sample ''flickr'') \<and>
      [''flickr'' \<mapsto> True] ''flickr'' = Some (https_score \<ge> http_score)"
    by simp
  have e: "provider_decision (1, 1)" using t by blast
  from flickr_run d e flickr_probe_fails a flickr_trusted b unreachable_caught c
  show ?thesis by blast
qed

lemma met_tally:
  "tally bad_host_net (img_list_of (met_sample ''met'')) 0 0 [] =
     (Inl LocationParseError, [(''https://a..b/x.jpg'', 2)])"
  by code_simp

text \<open>
  Claim C6 as it was stated fails: a failure of the GET need not be a
  \<^verbatim>\<open>RequestException\<close>. For a sampled URL whose host has an empty label the GET raises
  \<^verbatim>\<open>LocationParseError\<close>, and the prober ends with that error and no mapping.
\<close>

theorem probe_exception_surfaces:
  "img_list_of (met_sample ''met'') = [PStr ''a..b/x.jpg''] \<and>
   bad_host_net [] (''https://a..b/x.jpg'', 2) = OtherException LocationParseError \<and>
   test_provider_tls_images_available bad_host_net [''met''] met_sample [] =
     (Inl LocationParseError, [(''https://a..b/x.jpg'', 2)])"
  by (simp add: test_provider_tls_images_available_def met_tally)
    (simp add: img_list_of_def met_sample_def bad_host_net_def)


section \<open>Properties of the URL cleanup\<close>

lemma test_tls_supported_requests:
  "length (snd (test_tls_supported net url reqs)) \<le> length reqs + 1"
  by (simp add: test_tls_supported_unfold [of net url] https_probe_requests)

lemma example_url_no_scheme: "urlsplit_scheme ''www.example.com/x.jpg'' = Inr []"
  by code_simp


lemma flickr_world_tls:
  "tls_support flickr_world ''flickr'' = Some True" "tls_support flickr_world ''met'' = None"
  by (simp_all add: flickr_world_def)

text \<open>
  Claim C3, as amended. For a URL in which \<^verbatim>\<open>urlparse\<close> finds no scheme and a provider
  of the mapping, \<^verbatim>\<open>cleanup_url\<close> returns the URL between single quotes with a scheme
  before it, \<^verbatim>\<open>https://\<close> exactly when the provider's TLS decision is true, and nothing
  changes. For a provider that the mapping lacks, \<^verbatim>\<open>test_tls_supported\<close> is called on
  this one URL, which makes at most one request. When it returns, its result is the
  decision: the returned world holds the mapping with the provider set to it, and the
  literal has the scheme of that decision. When the GET raises an exception that is not a
  \<^verbatim>\<open>RequestException\<close>, \<^verbatim>\<open>cleanup_url\<close> raises it and the mapping is as it was.
\<close>

theorem cleanup_url_adds_scheme:
  assumes "urlparse_scheme url = Inr []"
  shows "(tls_support w provider = Some b \<longrightarrow>
            cleanup_url urlparse_scheme net url provider w =
              (Inr (Some (SqlLiteral
                 ([CHR 0x27] @ (if b then ''https://'' else ''http://'') @ url @ [CHR 0x27]))),
               w)) \<and>
         (tls_support w provider = None \<longrightarrow>
            (\<exists>res reqs'. test_tls_supported net url (requests w) = (res, reqs') \<and>
               length reqs' \<le> length (requests w) + 1 \<and>
               cleanup_url urlparse_scheme net url provider w =
                 (case res of
                    Inr b \<Rightarrow>
                      (Inr (Some (SqlLiteral
                         ([CHR 0x27] @ (if b then ''https://'' else ''http://'') @ url @
                          [CHR 0x27]))),
                       w\<lparr>tls_support := (tls_support w)(provider \<mapsto> b), requests := reqs'\<rparr>)
                  | Inl e \<Rightarrow> (Inl e, w\<lparr>requests := reqs'\<rparr>))))"
proof (intro conjI impI)
  assume "tls_support w provider = Some b"
  with assms show "cleanup_url urlparse_scheme net url provider w =
      (Inr (Some (SqlLiteral
         ([CHR 0x27] @ (if b then ''https://'' else ''http://'') @ url @ [CHR 0x27]))), w)"
    by (simp add: cleanup_url_def)
next
  assume n: "tls_support w provider = None"
  obtain res reqs' where t: "test_tls_supported net url (requests w) = (res, reqs')"
    by (cases "test_tls_supported net url (requests w)")
  from test_tls_supported_requests [of net url "requests w"] t
  have "length reqs' \<le> length (requests w) + 1" by simp
  moreover from assms n t have "cleanup_url urlparse_scheme net url provider w =
      (case res of
         Inr b \<Rightarrow>
           (Inr (Some (SqlLiteral
              ([CHR 0x27] @ (if b then ''https://'' else ''http://'') @ url @ [CHR 0x27]))),
            w\<lparr>tls_support := (tls_support w)(provider \<mapsto> b), requests := reqs'\<rparr>)
       | Inl e \<Rightarrow> (Inl e, w\<lparr>requests := reqs'\<rparr>))"
    by (cases res) (simp_all add: cleanup_url_def)
  ultimately show "\<exists>res reqs'. test_tls_supported net url (requests w) = (res, reqs') \<and>
               length reqs' \<le> length (requests w) + 1 \<and>
               cleanup_url urlparse_scheme net url provider w =
                 (case res of
                    Inr b \<Rightarrow>
                      (Inr (Some (SqlLiteral
                         ([CHR 0x27] @ (if b then ''https://'' else ''http://'') @ url @
                          [CHR 0x27]))),
                       w\<lparr>tls_support := (tls_support w)(provider \<mapsto> b), requests := reqs'\<rparr>)
                  | Inl e \<Rightarrow> (Inl e, w\<lparr>requests := reqs'\<rparr>))"
    using t by blast
qed

lemma example_probe:
  "test_tls_supported always_404 ''www.example.com/x.jpg'' [] =
     (Inr False, [(''https://www.example.com/x.jpg'', 2)])"
  by code_simp

theorem cleanup_url_adds_scheme_witness:
  "urlsplit_scheme ''www.example.com/x.jpg'' = Inr [] \<and>
   tls_support flickr_world ''flickr'' = Some True \<and>
   cleanup_url urlsplit_scheme always_404 ''www.example.com/x.jpg'' ''flickr'' flickr_world =
     (Inr (Some (SqlLiteral (CHR 0x27 # ''https://www.example.com/x.jpg'' @ [CHR 0x27]))),
      flickr_world) \<and>
   tls_support flickr_world ''met'' = None \<and>
   test_tls_supported always_404 ''www.example.com/x.jpg'' (requests flickr_world) =
     (Inr False, [(''https://www.example.com/x.jpg'', 2)]) \<and>
   cleanup_url urlsplit_scheme always_404 ''www.example.com/x.jpg'' ''met'' flickr_world =
     (Inr (Some (SqlLiteral (CHR 0x27 # ''http://www.example.com/x.jpg'' @ [CHR 0x27]))),
      flickr_world\<lparr>tls_support := (tls_support flickr_world)(''met'' \<mapsto> False),
                    requests := [(''https://www.example.com/x.jpg'', 2)]\<rparr>)"
proof -
  have r: "requests flickr_world = []" by (simp add: flickr_world_def)
  note t1 = cleanup_url_adds_scheme [where urlparse_scheme = urlsplit_scheme
      and url = "''www.example.com/x.jpg''" and w = flickr_world and provider = "''flickr''"
      and b = True and net = always_404]
  note t2 = cleanup_url_adds_scheme [where urlparse_scheme = urlsplit_scheme
      and url = "''www.example.com/x.jpg''" and w = flickr_world and provider = "''met''"
      and net = always_404]
  from t1 example_url_no_scheme flickr_world_tls have a:
    "cleanup_url urlsplit_scheme always_404 ''www.example.com/x.jpg'' ''flickr'' flickr_world =
     (Inr (Some (SqlLiteral (CHR 0x27 # ''https://www.example.com/x.jpg'' @ [CHR 0x27]))),
      flickr_world)"
    by simp
  from t2 example_url_no_scheme flickr_world_tls example_probe r have b:
    "cleanup_url urlsplit_scheme always_404 ''www.example.com/x.jpg'' ''met'' flickr_world =
     (Inr (Some (SqlLiteral (CHR 0x27 # ''http://www.example.com/x.jpg'' @ [CHR 0x27]))),
      flickr_world\<lparr>tls_support := (tls_support flickr_world)(''met'' \<mapsto> False),
                    requests := [(''https://www.example.com/x.jpg'', 2)]\<rparr>)"
    by auto
  from a b example_url_no_scheme flickr_world_tls example_probe r show ?thesis by simp
qed

lemma bad_host_probe:
  "test_tls_supported bad_host_net ''a..b/x.jpg'' [] =
     (Inl LocationParseError, [(''https://a..b/x.jpg'', 2)])"
  by code_simp

lemma bad_host_no_scheme: "urlsplit_scheme ''a..b/x.jpg'' = Inr []"
  by code_simp

text \<open>
  Claim C3 as it was stated fails: a URL without a scheme need not get a literal. With a
  provider that the mapping lacks and a URL whose host has an empty label, the GET of the
  probe raises \<^verbatim>\<open>LocationParseError\<close>, which \<^verbatim>\<open>cleanup_url\<close> raises in turn; the
  provider is not added to the mapping.
\<close>

theorem cleanup_url_probe_raises:
  "urlsplit_scheme ''a..b/x.jpg'' = Inr [] \<and>
   tls_support flickr_world ''met'' = None \<and>
   fst (cleanup_url urlsplit_scheme bad_host_net ''a..b/x.jpg'' ''met'' flickr_world) =
     Inl LocationParseError \<and>
   tls_support (snd (cleanup_url urlsplit_scheme bad_host_net ''a..b/x.jpg'' ''met''
                      flickr_world)) ''met'' = None"
  using bad_host_probe bad_host_no_scheme
  by (simp add: cleanup_url_def flickr_world_def)











section \<open>Properties of the worker\<close>




lemma distinct_fold_update:
  "distinct (map fst acc) \<Longrightarrow> distinct (map fst (fold (\<lambda>(k, v). AList.update k v) xs acc))"
  by (induction xs arbitrary: acc) (auto simp: distinct_update)

lemma distinct_dict_merge: "distinct (map fst (dict_merge g p))"
  unfolding dict_merge_def by (rule distinct_fold_update) simp



lemma set_update_subset: "set (AList.update k v al) \<subseteq> insert (k, v) (set al)"
  by (induction al) auto

lemma cleanup_url_executed:
  "executed (snd (cleanup_url urlparse_scheme net url provider w)) = executed w"
  by (auto simp: cleanup_url_def split: sum.splits option.splits prod.splits)

lemma call_cleaning_func_executed:
  "executed (snd (call_cleaning_func urlparse_scheme net cleaning_func dirty_value provider w)) =
     executed w"
  by (auto simp: call_cleaning_func_def cleanup_url_executed
      split: cleaning_func.splits pyval.splits)

lemma fragment_of_mono:
  "fragment_of U N rules r fc \<Longrightarrow> set rules \<subseteq> set rules' \<Longrightarrow> fragment_of U N rules' r fc"
  unfolding fragment_of_def by blast

lemma clean_fields_sound:
  "clean_fields U N rules r acc w = (Inr out, w') \<Longrightarrow>
     executed w' = executed w \<and>
     (\<forall>fc\<in>set out. fc \<in> set acc \<or> fragment_of U N rules r fc)"
proof (induction rules arbitrary: acc w)
  case Nil
  then show ?case by simp
next
  case (Cons rule rest)
  obtain f fn where rule: "rule = (f, fn)" by (cases rule)
  from Cons.prems rule obtain v where v: "row_get r f = Some v"
    by (auto split: option.splits)
  have mono: "\<And>fc. fragment_of U N rest r fc \<Longrightarrow> fragment_of U N (rule # rest) r fc"
    by (rule fragment_of_mono) auto
  show ?case
  proof (cases "truthy v")
    case False
    with Cons.prems rule v have "clean_fields U N rest r acc w = (Inr out, w')" by simp
    from Cons.IH [OF this] mono show ?thesis by blast
  next
    case True
    obtain res w1 where c: "call_cleaning_func U N fn v (row_provider r) w = (res, w1)"
      by (cases "call_cleaning_func U N fn v (row_provider r) w")
    from call_cleaning_func_executed [of U N fn v "row_provider r" w] c
    have ex: "executed w1 = executed w" by simp
    from Cons.prems rule v True c obtain clean where res: "res = Inr clean"
      by (cases res) auto
    show ?thesis
    proof (cases "clean_truthy clean")
      case False
      with Cons.prems rule v True c res have "clean_fields U N rest r acc w1 = (Inr out, w')"
        by (auto split: option.splits)
      from Cons.IH [OF this] mono ex show ?thesis by auto
    next
      case ct: True
      then obtain cl where cl: "clean = Some cl" by (cases clean) auto
      with Cons.prems rule v True c res ct
      have rec: "clean_fields U N rest r (AList.update f cl acc) w1 = (Inr out, w')"
        by simp
      have new: "fragment_of U N (rule # rest) r (f, cl)"
        unfolding fragment_of_def using rule v True c res cl by auto
      from Cons.IH [OF rec] have
        "executed w' = executed w1"
        "\<forall>fc\<in>set out. fc \<in> set (AList.update f cl acc) \<or> fragment_of U N rest r fc"
        by auto
      with set_update_subset [of f cl acc] new mono ex show ?thesis by auto
    qed
  qed
qed


lemma image_config_global: "map_of image_providers_config ''*'' = Some image_global_fields"
  by (simp add: image_providers_config_def image_global_fields_def)

lemma flickr_rules:
  "fields_to_update image_providers_config image_global_fields ''flickr'' = image_global_fields"
  by (simp add: fields_to_update_def image_providers_config_def)

text \<open>
  What holds of the dict \<^verbatim>\<open>cleaned_data\<close> and of the number of statements: a falsy value
  is passed over; a row that is processed without error executes no statement when it has
  no fragment, and otherwise one statement, formatted from fragments of registered fields.
\<close>

lemma clean_fields_skips_falsy:
  "row_get r update_field = Some dirty_value \<Longrightarrow> \<not> truthy dirty_value \<Longrightarrow>
     clean_fields U N ((update_field, cleaning_func) # rest) r cleaned_data w =
       clean_fields U N rest r cleaned_data w"
  by simp

lemma clean_row_statements:
  assumes "fst (clean_row U N json_sql temp_table providers_config global_field_to_func r w) =
    Inr ()"
  shows "executed (snd (clean_row U N json_sql temp_table providers_config
                          global_field_to_func r w)) = executed w \<or>
    (\<exists>cleaned_data. cleaned_data \<noteq> [] \<and>
       (\<forall>fc\<in>set cleaned_data.
          fragment_of U N
            (fields_to_update providers_config global_field_to_func (row_provider r)) r fc) \<and>
       executed (snd (clean_row U N json_sql temp_table providers_config
                        global_field_to_func r w)) =
         executed w @
           [update_query temp_table (map (field_expression json_sql) cleaned_data) (row_id r)])"
proof -
  let ?rules = "fields_to_update providers_config global_field_to_func (row_provider r)"
  obtain res w1 where cf: "clean_fields U N ?rules r [] w = (res, w1)"
    by (cases "clean_fields U N ?rules r [] w")
  with assms obtain out where res: "res = Inr out"
    by (cases res) (auto simp: clean_row_def)
  from clean_fields_sound [of U N ?rules r "[]" w out w1] cf res
  have ex: "executed w1 = executed w" and fr: "\<forall>fc\<in>set out. fragment_of U N ?rules r fc"
    by auto
  show ?thesis
  proof (cases "out = []")
    case True
    with cf res ex show ?thesis by (simp add: clean_row_def)
  next
    case False
    with cf res ex fr show ?thesis by (auto simp: clean_row_def Let_def)
  qed
qed

lemma injected_row_fields:
  "clean_fields urlsplit_scheme always_404
     (fields_to_update image_providers_config image_global_fields (row_provider injected_row))
     injected_row [] flickr_world =
   (Inr [(''url'', SqlLiteral (CHR 0x27 # ''https://www.example.com/x.jpg', license = 'by'' @
                               [CHR 0x27]))],
    flickr_world)"
proof -
  have "urlsplit_scheme ''www.example.com/x.jpg', license = 'by'' = Inr []" by code_simp
  then show ?thesis
    by (simp add: injected_row_def fields_to_update_def image_providers_config_def
        image_global_fields_def row_get_def call_cleaning_func_def cleanup_url_def
        flickr_world_def)
qed

lemma str_of_int_9: "str_of_int 9 = ''9''"
  by code_simp

text \<open>
  Claim C9. The statement should set only fields of the rule table. The literal that
  \<^verbatim>\<open>cleanup_url\<close> returns is the URL between single quotes with nothing escaped, and the
  worker formats it into the text of the statement as it is. A URL with a single quote in
  it ends the literal early, and what follows the quote is read as SQL: for the URL
  \<^verbatim>\<open>www.example.com/x.jpg', license = 'by\<close> the executed statement assigns the column
  \<^verbatim>\<open>license\<close>, which is no field of the rule table.
\<close>

theorem clean_row_sets_unregistered_field:
  "row_get injected_row ''url'' = Some (PStr ''www.example.com/x.jpg', license = 'by'') \<and>
   map fst (fields_to_update image_providers_config image_global_fields
              (row_provider injected_row)) =
     [''tags'', ''url'', ''creator_url'', ''foreign_landing_url'', ''thumbnail''] \<and>
   clean_row urlsplit_scheme always_404 json_sql ''temp_import_image'' image_providers_config
     image_global_fields injected_row flickr_world =
     (Inr (),
      flickr_world\<lparr>executed :=
        [CHR 0x0A # replicate 16 (CHR '' '') @
         ''UPDATE temp_import_image SET url = 'https://www.example.com/x.jpg', license = 'by' WHERE id = 9'' @
         CHR 0x0A # replicate 12 (CHR '' '')]\<rparr>)"
proof -
  have a: "row_get injected_row ''url'' = Some (PStr ''www.example.com/x.jpg', license = 'by'')"
    by (simp add: injected_row_def row_get_def)
  have b: "map fst (fields_to_update image_providers_config image_global_fields
              (row_provider injected_row)) =
     [''tags'', ''url'', ''creator_url'', ''foreign_landing_url'', ''thumbnail'']"
    by (simp add: injected_row_def flickr_rules) (simp add: image_global_fields_def)
  have c: "row_id injected_row = 9" "executed flickr_world = []"
    by (simp_all add: injected_row_def flickr_world_def)
  have d: "clean_row urlsplit_scheme always_404 json_sql ''temp_import_image''
      image_providers_config image_global_fields injected_row flickr_world =
     (Inr (),
      flickr_world\<lparr>executed :=
        [CHR 0x0A # replicate 16 (CHR '' '') @
         ''UPDATE temp_import_image SET url = 'https://www.example.com/x.jpg', license = 'by' WHERE id = 9'' @
         CHR 0x0A # replicate 12 (CHR '' '')]\<rparr>)"
    unfolding clean_row_def injected_row_fields
    by (simp add: c field_expression_def update_query_def str_of_int_9)
  from a b d show ?thesis by blast
qed

end
